theory Spec2Isabelle
  imports Complex_Main
begin

section \<open>LiteLight: a shallow embedding of \<^verbatim>\<open>src/lite-light.js\<close>\<close>

text \<open>
  The lightbox keeps two module-level objects, \<^verbatim>\<open>touchState\<close> and \<^verbatim>\<open>zoomState\<close>, and
  per opened viewer a closure variable \<^verbatim>\<open>currentIndex\<close> over the array \<^verbatim>\<open>images\<close>.
  The handlers are modelled as functions on a record of that state. Each returns the
  state it leaves behind together with the exception it threw, if any: an assignment made
  before a \<^verbatim>\<open>TypeError\<close> is kept, as in JavaScript.

  Conventions of the embedding:
  \<^item> Screen coordinates, scales and offsets are JavaScript numbers; they are modelled as
    mathematical reals, so rounding, infinities and NaN of IEEE doubles are outside the
    model. \<^verbatim>\<open>ZOOM_TOLERANCE = 0.01\<close> is the real number \<open>1/100\<close>.
  \<^item> Array indices are integers, with one extra value for the NaN that \<^verbatim>\<open>%\<close> yields for a
    zero divisor. JavaScript's \<^verbatim>\<open>-0\<close> is identified with \<open>0\<close>: both address element 0.
  \<^item> The fields \<^verbatim>\<open>x\<close> and \<^verbatim>\<open>y\<close> of \<^verbatim>\<open>zoomState\<close> are written \<open>zoom_x\<close> and \<open>zoom_y\<close>, those
    of the object returned by \<^verbatim>\<open>getTouchCenter\<close> are \<open>center_x\<close> and \<open>center_y\<close>.
  \<^item> The CSS selector engine belongs to the browser: \<^verbatim>\<open>config.imageSelector\<close> is a predicate
    on elements, and the document is the list of its elements in document order.
  \<^item> CSS classes, the body scroll lock, the preload cache and \<^verbatim>\<open>preventDefault\<close> /
    \<^verbatim>\<open>stopPropagation\<close> influence none of the modelled state and are left out; the array
    reads that preloading performs are kept, since they can throw.
\<close>

subsection \<open>Values\<close>

datatype error = TypeError

text \<open>An index value: an integer, or the NaN of a remainder by zero.\<close>

datatype index = Idx int | NaN

record touch =
  screenX :: real
  screenY :: real

record center =
  center_x :: real
  center_y :: real

record touch_state =
  startX :: real
  startY :: real
  endX :: real
  endY :: real
  initialDistance :: real
  isZooming :: bool
  lastCenterX :: real
  lastCenterY :: real

record zoom_state =
  scale :: real
  zoom_x :: real
  zoom_y :: real
  initialScale :: real
  initialX :: real
  initialY :: real

text \<open>The value of \<^verbatim>\<open>style.transform\<close>: \<^verbatim>\<open>scale(s) translate(xpx, ypx)\<close>.\<close>

record transform =
  t_scale :: real
  t_x :: real
  t_y :: real

text \<open>A DOM element: its identity (\<^verbatim>\<open>===\<close> compares nodes), tag name and attributes.\<close>

record element =
  node :: nat
  tagName :: string
  attributes :: "(string \<times> string) list"

record config =
  imageSelector :: "element \<Rightarrow> bool"
  imageUrlAttribute :: string
  swipeThreshold :: real

text \<open>
  The state the handlers share: the two module objects, the closure's index, and of the
  viewer's DOM the image's source and transform, whether the overlay is displayed, the
  pending one-shot \<^verbatim>\<open>handleFade\<close> listeners (each with the URL it captured), whether
  the viewer's listeners (touch, buttons, background) are attached, and whether the
  \<^verbatim>\<open>keydown\<close> listener is.
\<close>

record viewer =
  zoomState :: zoom_state
  touchState :: touch_state
  currentIndex :: index
  imageSrc :: "string option"
  imageTransform :: transform
  fadeListeners :: "string option list"
  displayed :: bool
  listenersAttached :: bool
  keydownAttached :: bool

type_synonym 'a outcome = "error option \<times> 'a"

definition ZOOM_TOLERANCE :: real where
  "ZOOM_TOLERANCE = 1 / 100"

definition MIN_ZOOM :: real where
  "MIN_ZOOM = 1"

definition MAX_ZOOM :: real where
  "MAX_ZOOM = 5"

subsection \<open>JavaScript primitives the source relies on\<close>

text \<open>\<^verbatim>\<open>a % b\<close> on integers: the remainder has the sign of the dividend; \<^verbatim>\<open>a % 0\<close> is NaN.\<close>

fun js_rem :: "index \<Rightarrow> int \<Rightarrow> index" where
  "js_rem (Idx a) b = (if b = 0 then NaN else Idx (sgn a * (\<bar>a\<bar> mod \<bar>b\<bar>)))"
| "js_rem NaN b = NaN"

fun js_add :: "index \<Rightarrow> int \<Rightarrow> index" where
  "js_add (Idx a) k = Idx (a + k)"
| "js_add NaN k = NaN"

text \<open>\<^verbatim>\<open>xs[i]\<close>: \<open>None\<close> is \<^verbatim>\<open>undefined\<close>, for an index that is negative, too large or NaN.\<close>

fun element_at :: "'a list \<Rightarrow> index \<Rightarrow> 'a option" where
  "element_at xs (Idx i) = (if 0 \<le> i \<and> i < int (length xs) then Some (xs ! nat i) else None)"
| "element_at xs NaN = None"

text \<open>\<^verbatim>\<open>Array.prototype.findIndex\<close>: the first position that satisfies the test, else \<open>-1\<close>.\<close>

fun findIndexFrom :: "int \<Rightarrow> ('a \<Rightarrow> bool) \<Rightarrow> 'a list \<Rightarrow> int" where
  "findIndexFrom i P [] = -1"
| "findIndexFrom i P (x # xs) = (if P x then i else findIndexFrom (i + 1) P xs)"

definition findIndex :: "('a \<Rightarrow> bool) \<Rightarrow> 'a list \<Rightarrow> int" where
  "findIndex P xs = findIndexFrom 0 P xs"

definition hasAttribute :: "element \<Rightarrow> string \<Rightarrow> bool" where
  "hasAttribute el name = (map_of (attributes el) name \<noteq> None)"

definition getAttribute :: "element \<Rightarrow> string \<Rightarrow> string option" where
  "getAttribute el name = map_of (attributes el) name"

definition querySelectorAll :: "(element \<Rightarrow> bool) \<Rightarrow> element list \<Rightarrow> element list" where
  "querySelectorAll sel doc = filter sel doc"

subsection \<open>Geometry utilities (lines 73--95)\<close>

definition getTouchDistance :: "touch list \<Rightarrow> real" where
  "getTouchDistance touches =
     (if length touches < 2 then 0
      else let touch1 = touches ! 0; touch2 = touches ! 1
           in sqrt ((screenX touch2 - screenX touch1) ^ 2 + (screenY touch2 - screenY touch1) ^ 2))"

text \<open>
  With no touch at all, \<^verbatim>\<open>touches[0]\<close> is \<^verbatim>\<open>undefined\<close> and reading \<^verbatim>\<open>.screenX\<close> of it
  throws a \<^verbatim>\<open>TypeError\<close>.
\<close>

definition getTouchCenter :: "touch list \<Rightarrow> error + center" where
  "getTouchCenter touches =
     (if length touches < 2 then
        (case touches of
           [] \<Rightarrow> Inl TypeError
         | t # _ \<Rightarrow> Inr \<lparr>center_x = screenX t, center_y = screenY t\<rparr>)
      else let touch1 = touches ! 0; touch2 = touches ! 1
           in Inr \<lparr>center_x = (screenX touch1 + screenX touch2) / 2,
                   center_y = (screenY touch1 + screenY touch2) / 2\<rparr>)"

subsection \<open>Zoom/pan model (lines 97--111)\<close>

definition applyZoomTransform :: "viewer \<Rightarrow> viewer" where
  "applyZoomTransform v =
     v\<lparr>imageTransform := \<lparr>t_scale = scale (zoomState v),
                           t_x = zoom_x (zoomState v),
                           t_y = zoom_y (zoomState v)\<rparr>\<rparr>"

definition resetZoom :: "viewer \<Rightarrow> viewer" where
  "resetZoom v = applyZoomTransform (v\<lparr>zoomState := (zoomState v)\<lparr>scale := 1, zoom_x := 0, zoom_y := 0\<rparr>\<rparr>)"

definition isApproximatelyOne :: "real \<Rightarrow> bool" where
  "isApproximatelyOne val = (\<bar>val - 1\<bar> < ZOOM_TOLERANCE)"

text \<open>The clamp written inline on line 229: \<^verbatim>\<open>Math.max(MIN_ZOOM, Math.min(MAX_ZOOM, s))\<close>.\<close>

definition clampScale :: "real \<Rightarrow> real" where
  "clampScale s = max MIN_ZOOM (min MAX_ZOOM s)"

subsection \<open>Navigation (lines 144--185)\<close>

text \<open>
  \<^verbatim>\<open>preloadAdjacentImages\<close>: the two array reads; the cache they warm is not modelled.
\<close>

definition preloadAdjacentImages :: "element list \<Rightarrow> index \<Rightarrow> error option" where
  "preloadAdjacentImages images currentIdx =
     (let n = int (length images);
          prevIdx = js_rem (js_add (js_add currentIdx (- 1)) n) n;
          nextIdx = js_rem (js_add currentIdx 1) n
      in if element_at images prevIdx = None then Some TypeError
         else if element_at images nextIdx = None then Some TypeError
         else None)"

text \<open>
  \<^verbatim>\<open>navigateToImage\<close>: line 156 assigns \<^verbatim>\<open>currentIndex\<close>; line 159 reads
  \<^verbatim>\<open>images[currentIndex]\<close> and throws when there is no such element, after the
  assignment; otherwise the one-shot \<^verbatim>\<open>handleFade\<close> listener is registered with the URL.
\<close>

definition navigateToImage :: "config \<Rightarrow> element list \<Rightarrow> index \<Rightarrow> viewer \<Rightarrow> viewer outcome" where
  "navigateToImage cfg images idx v =
     (let n = int (length images);
          v1 = v\<lparr>currentIndex := js_rem (js_add idx n) n\<rparr>
      in case element_at images (currentIndex v1) of
           None \<Rightarrow> (Some TypeError, v1)
         | Some img \<Rightarrow>
             (let nextImageUrl = getAttribute img (imageUrlAttribute cfg)
              in (None, v1\<lparr>fadeListeners := fadeListeners v1 @ [nextImageUrl]\<rparr>)))"

text \<open>
  \<^verbatim>\<open>handleFade\<close> (lines 168--184), run when the image's \<^verbatim>\<open>animationend\<close> fires: it swaps the
  source, resets the zoom and then preloads around the current index.
\<close>

definition handleFade :: "element list \<Rightarrow> string option \<Rightarrow> viewer \<Rightarrow> viewer outcome" where
  "handleFade images nextImageUrl v =
     (let v1 = resetZoom (v\<lparr>imageSrc := nextImageUrl\<rparr>)
      in (preloadAdjacentImages images (currentIndex v1), v1))"

text \<open>
  One \<^verbatim>\<open>animationend\<close> event runs every pending \<^verbatim>\<open>handleFade\<close> in registration order and
  removes them; an exception in one listener does not stop the others.
\<close>

fun runFades :: "element list \<Rightarrow> string option list \<Rightarrow> viewer outcome \<Rightarrow> viewer outcome" where
  "runFades images [] r = r"
| "runFades images (url # urls) (e, v) =
     (case handleFade images url v of
        (e', v') \<Rightarrow> runFades images urls (if e = None then e' else e, v'))"

definition animationEnd :: "element list \<Rightarrow> viewer \<Rightarrow> viewer outcome" where
  "animationEnd images v = runFades images (fadeListeners v) (None, v\<lparr>fadeListeners := []\<rparr>)"

subsection \<open>Touch handlers (lines 188--293)\<close>

definition handleTouchStart :: "viewer \<Rightarrow> touch list \<Rightarrow> viewer outcome" where
  "handleTouchStart v touches =
     (if length touches = 1 then
        (let touch = touches ! 0;
             ts = (touchState v)\<lparr>startX := screenX touch, startY := screenY touch,
                                 lastCenterX := screenX touch, lastCenterY := screenY touch,
                                 isZooming := False\<rparr>;
             zs = zoomState v
         in (None, v\<lparr>touchState := ts,
                     zoomState := zs\<lparr>initialScale := scale zs, initialX := zoom_x zs,
                                     initialY := zoom_y zs\<rparr>\<rparr>))
      else if length touches = 2 then
        (let v1 = v\<lparr>touchState := (touchState v)\<lparr>initialDistance := getTouchDistance touches\<rparr>\<rparr>
         in case getTouchCenter touches of
              Inl e \<Rightarrow> (Some e, v1)
            | Inr center \<Rightarrow>
                (let ts = (touchState v1)\<lparr>lastCenterX := center_x center,
                                          lastCenterY := center_y center\<rparr>;
                     zs = zoomState v1
                 in (None, v1\<lparr>zoomState := zs\<lparr>initialScale := scale zs, initialX := zoom_x zs,
                                                  initialY := zoom_y zs\<rparr>,
                              touchState := ts\<lparr>isZooming := True\<rparr>\<rparr>)))
      else (None, v))"

text \<open>The body of \<^verbatim>\<open>if (touchState.initialDistance > 0)\<close>, lines 228--246.\<close>

definition pinchZoom :: "real \<Rightarrow> center \<Rightarrow> viewer \<Rightarrow> viewer" where
  "pinchZoom currentDistance center v =
     (let ts = touchState v;
          scaleChange = currentDistance / initialDistance ts;
          zs = (zoomState v)\<lparr>scale := clampScale (initialScale (zoomState v) * scaleChange)\<rparr>;
          zs' = (if isApproximatelyOne (scale zs) then zs\<lparr>zoom_x := 0, zoom_y := 0\<rparr>
                 else (let deltaX = center_x center - lastCenterX ts;
                           deltaY = center_y center - lastCenterY ts
                       in if scale zs > MIN_ZOOM
                          then zs\<lparr>zoom_x := initialX zs + deltaX / scale zs,
                                  zoom_y := initialY zs + deltaY / scale zs\<rparr>
                          else zs))
      in applyZoomTransform (v\<lparr>zoomState := zs'\<rparr>))"

definition handleTouchMove :: "viewer \<Rightarrow> touch list \<Rightarrow> viewer outcome" where
  "handleTouchMove v touches =
     (if length touches = 2 then
        (let currentDistance = getTouchDistance touches
         in case getTouchCenter touches of
              Inl e \<Rightarrow> (Some e, v)
            | Inr center \<Rightarrow>
                (let v1 = (if initialDistance (touchState v) > 0
                           then pinchZoom currentDistance center v else v)
                 in (None, v1\<lparr>touchState := (touchState v1)\<lparr>lastCenterX := center_x center,
                                                              lastCenterY := center_y center,
                                                              isZooming := True\<rparr>\<rparr>)))
      else if length touches = 1 \<and> scale (zoomState v) > MIN_ZOOM then
        (let touch = touches ! 0;
             ts = touchState v;
             zs = zoomState v;
             deltaX = screenX touch - lastCenterX ts;
             deltaY = screenY touch - lastCenterY ts;
             v1 = applyZoomTransform
                    (v\<lparr>zoomState := zs\<lparr>zoom_x := zoom_x zs + deltaX / scale zs,
                                        zoom_y := zoom_y zs + deltaY / scale zs\<rparr>\<rparr>)
         in (None, v1\<lparr>touchState := ts\<lparr>lastCenterX := screenX touch,
                                        lastCenterY := screenY touch,
                                        isZooming := True\<rparr>\<rparr>))
      else (None, v))"

text \<open>
  \<^verbatim>\<open>handleTouchEnd\<close>: when \<^verbatim>\<open>navigateToImage\<close> throws, the handler is left at once and the
  reset of lines 289--292 does not run.
\<close>

definition handleTouchEnd :: "config \<Rightarrow> element list \<Rightarrow> viewer \<Rightarrow> touch list \<Rightarrow> touch list \<Rightarrow> viewer outcome" where
  "handleTouchEnd cfg images v changedTouches touches =
     (case (if length changedTouches = 1 \<and> \<not> isZooming (touchState v) \<and> length touches = 0
               \<and> isApproximatelyOne (scale (zoomState v))
            then (let touch = changedTouches ! 0;
                      v1 = v\<lparr>touchState := (touchState v)\<lparr>endX := screenX touch,
                                                           endY := screenY touch\<rparr>\<rparr>;
                      swipeDistanceX = endX (touchState v1) - startX (touchState v1);
                      swipeDistanceY = endY (touchState v1) - startY (touchState v1)
                  in if \<bar>swipeDistanceX\<bar> > \<bar>swipeDistanceY\<bar> \<and> \<bar>swipeDistanceX\<bar> > swipeThreshold cfg
                     then navigateToImage cfg images
                            (if swipeDistanceX > 0 then js_add (currentIndex v1) (- 1)
                             else js_add (currentIndex v1) 1) v1
                     else (None, v1))
            else (None, v)) of
        (Some e, v2) \<Rightarrow> (Some e, v2)
      | (None, v2) \<Rightarrow>
          (None, if length touches = 0
                 then v2\<lparr>touchState := (touchState v2)\<lparr>isZooming := False, initialDistance := 0\<rparr>\<rparr>
                 else v2))"

subsection \<open>Keyboard, buttons and the delegated click handler (lines 136--142, 296--366)\<close>

definition closeLightbox :: "viewer \<Rightarrow> viewer" where
  "closeLightbox v = v\<lparr>displayed := False, keydownAttached := False\<rparr>"

definition handleKeyboardNav :: "config \<Rightarrow> element list \<Rightarrow> viewer \<Rightarrow> string \<Rightarrow> viewer outcome" where
  "handleKeyboardNav cfg images v key =
     (if key = ''ArrowLeft'' then navigateToImage cfg images (js_add (currentIndex v) (- 1)) v
      else if key = ''ArrowRight'' then navigateToImage cfg images (js_add (currentIndex v) 1) v
      else if key = ''Escape'' then (None, closeLightbox v)
      else (None, v))"

text \<open>\<^verbatim>\<open>createNavigationHandler(direction)\<close>, the click handler of the two arrow buttons.\<close>

definition navigationHandler :: "config \<Rightarrow> element list \<Rightarrow> int \<Rightarrow> viewer \<Rightarrow> viewer outcome" where
  "navigationHandler cfg images direction v =
     navigateToImage cfg images (js_add (currentIndex v) direction) v"

text \<open>
  The delegated click handler. A click that is not on an \<^verbatim>\<open>IMG\<close> with the URL attribute
  returns at line 138. Otherwise line 141 sets the index, line 329 shows the overlay and
  line 332 reads \<^verbatim>\<open>images[currentIndex]\<close>, which throws when there is no such element: the
  overlay is then shown, and nothing after line 332 has run.
\<close>

definition clickHandler :: "config \<Rightarrow> element list \<Rightarrow> viewer \<Rightarrow> element \<Rightarrow> viewer outcome" where
  "clickHandler cfg doc v target =
     (if tagName target \<noteq> ''IMG'' \<or> \<not> hasAttribute target (imageUrlAttribute cfg) then (None, v)
      else
        (let images = querySelectorAll (imageSelector cfg) doc;
             v1 = v\<lparr>currentIndex := Idx (findIndex (\<lambda>img. img = target) images),
                    displayed := True\<rparr>
         in case element_at images (currentIndex v1) of
              None \<Rightarrow> (Some TypeError, v1)
            | Some img \<Rightarrow>
                (case preloadAdjacentImages images (currentIndex v1) of
                   Some e \<Rightarrow> (Some e, v1)
                 | None \<Rightarrow>
                     (None, (resetZoom (v1\<lparr>imageSrc := getAttribute img (imageUrlAttribute cfg)\<rparr>))
                              \<lparr>listenersAttached := True, keydownAttached := True\<rparr>))))"

subsection \<open>Events and runs\<close>

text \<open>
  The state when the module has been loaded and nothing has been clicked. No closure
  exists yet: the index is a placeholder that line 141 overwrites before any read.
\<close>

definition moduleState :: viewer where
  "moduleState =
     \<lparr>zoomState = \<lparr>scale = 1, zoom_x = 0, zoom_y = 0, initialScale = 1, initialX = 0, initialY = 0\<rparr>,
      touchState = \<lparr>startX = 0, startY = 0, endX = 0, endY = 0, initialDistance = 0,
                    isZooming = False, lastCenterX = 0, lastCenterY = 0\<rparr>,
      currentIndex = Idx 0,
      imageSrc = None,
      imageTransform = \<lparr>t_scale = 1, t_x = 0, t_y = 0\<rparr>,
      fadeListeners = [],
      displayed = False,
      listenersAttached = False,
      keydownAttached = False\<rparr>"

datatype event =
    Click element
  | TouchStart "touch list"
  | TouchMove "touch list"
  | TouchEnd "touch list" "touch list"
  | AnimationEnd
  | KeyDown string
  | ButtonClick int
  | CloseClick

text \<open>
  What one event does to the state: the handler registered for it runs, if it is
  attached. The document does not change, so every closure holds the same \<^verbatim>\<open>images\<close>.
  The source never removes the listeners of an earlier opening; a further run of the same
  handler on one event is a further event of the run. The closures of several openings
  are modelled with one index, on which the zoom state does not depend.
\<close>

definition dispatch :: "config \<Rightarrow> element list \<Rightarrow> viewer \<Rightarrow> event \<Rightarrow> viewer outcome" where
  "dispatch cfg doc v ev =
     (let images = querySelectorAll (imageSelector cfg) doc
      in case ev of
           Click target \<Rightarrow> clickHandler cfg doc v target
         | TouchStart touches \<Rightarrow> (if listenersAttached v then handleTouchStart v touches else (None, v))
         | TouchMove touches \<Rightarrow> (if listenersAttached v then handleTouchMove v touches else (None, v))
         | TouchEnd changedTouches touches \<Rightarrow>
             (if listenersAttached v then handleTouchEnd cfg images v changedTouches touches
              else (None, v))
         | AnimationEnd \<Rightarrow> animationEnd images v
         | KeyDown key \<Rightarrow> (if keydownAttached v then handleKeyboardNav cfg images v key else (None, v))
         | ButtonClick direction \<Rightarrow>
             (if listenersAttached v then navigationHandler cfg images direction v else (None, v))
         | CloseClick \<Rightarrow> (if listenersAttached v then (None, closeLightbox v) else (None, v)))"

fun run :: "config \<Rightarrow> element list \<Rightarrow> viewer \<Rightarrow> event list \<Rightarrow> viewer" where
  "run cfg doc v [] = v"
| "run cfg doc v (ev # evs) = run cfg doc (snd (dispatch cfg doc v ev)) evs"

subsection \<open>The wrap of the specification, and sample data\<close>

text \<open>
  The index wrap as the specification words it, with JavaScript's remainder:
  \<^verbatim>\<open>((requestedIndex % count) + count) % count\<close>. It is compared below with what
  line 156 computes, \<^verbatim>\<open>(index + images.length) % images.length\<close>.
\<close>

definition wrapSpec :: "index \<Rightarrow> int \<Rightarrow> index" where
  "wrapSpec requestedIndex count = js_rem (js_add (js_rem requestedIndex count) count) count"

text \<open>A page with three tagged images, and the default configuration of \<^verbatim>\<open>initLiteLight\<close>.\<close>

definition sampleImage :: "nat \<Rightarrow> element" where
  "sampleImage k = \<lparr>node = k, tagName = ''IMG'', attributes = [(''data-lightbox'', ''u'')]\<rparr>"

definition sampleImages :: "element list" where
  "sampleImages = [sampleImage 0, sampleImage 1, sampleImage 2]"

definition sampleConfig :: config where
  "sampleConfig =
     \<lparr>imageSelector = (\<lambda>el. tagName el = ''IMG'' \<and> hasAttribute el ''data-lightbox''),
      imageUrlAttribute = ''data-lightbox'',
      swipeThreshold = 50\<rparr>"

definition touchAt :: "real \<Rightarrow> real \<Rightarrow> touch" where
  "touchAt a b = \<lparr>screenX = a, screenY = b\<rparr>"

text \<open>Pressing an arrow button \<open>k\<close> times: \<open>k\<close> runs of the handler of \<^verbatim>\<open>createNavigationHandler\<close>.\<close>

fun repeatNavigation :: "nat \<Rightarrow> config \<Rightarrow> element list \<Rightarrow> int \<Rightarrow> viewer \<Rightarrow> viewer" where
  "repeatNavigation 0 cfg images direction v = v"
| "repeatNavigation (Suc k) cfg images direction v =
     repeatNavigation k cfg images direction (snd (navigationHandler cfg images direction v))"

text \<open>A configuration whose selector matches only the first two of the sample images.\<close>

definition narrowConfig :: config where
  "narrowConfig = sampleConfig\<lparr>imageSelector := (\<lambda>el. node el < 2)\<rparr>"

subsection \<open>Sample gestures and the invariants\<close>

text \<open>Two fingers have just been put down 100 pixels apart, before anything else.\<close>

definition pinchStarted :: viewer where
  "pinchStarted = snd (handleTouchStart moduleState [touchAt 0 0, touchAt 100 0])"

text \<open>
  The first sample image has been opened, zoomed to scale 2 by a pinch, released, and one
  finger has been put down again at (100, 100).
\<close>

definition zoomedViewer :: viewer where
  "zoomedViewer = run sampleConfig sampleImages moduleState
     [Click (sampleImage 0),
      TouchStart [touchAt 0 0, touchAt 100 0],
      TouchMove [touchAt 0 0, touchAt 200 0],
      TouchEnd [touchAt 0 0, touchAt 200 0] [],
      TouchStart [touchAt 100 100]]"

text \<open>The first sample image has been opened and one finger put down at (300, 200).\<close>

definition swipeStart :: viewer where
  "swipeStart = run sampleConfig sampleImages moduleState
     [Click (sampleImage 0), TouchStart [touchAt 300 200]]"

text \<open>A pinch from 100 to 1000 pixels, and a pinch from 200 to 201 pixels with one finger lifted.\<close>

definition pinchRun :: "event list" where
  "pinchRun = [Click (sampleImage 0),
               TouchStart [touchAt 0 0, touchAt 100 0],
               TouchMove [touchAt 0 0, touchAt 1000 0]]"

definition restRun :: "event list" where
  "restRun = [Click (sampleImage 0),
              TouchStart [touchAt 0 0, touchAt 200 0],
              TouchMove [touchAt 0 0, touchAt 201 0],
              TouchEnd [touchAt 201 0] [touchAt 0 0]]"

text \<open>Scale and offset, the part of \<^verbatim>\<open>zoomState\<close> that the transform renders.\<close>

definition zoomTriple :: "viewer \<Rightarrow> real \<times> real \<times> real" where
  "zoomTriple v = (scale (zoomState v), zoom_x (zoomState v), zoom_y (zoomState v))"

text \<open>\<^verbatim>\<open>MIN_ZOOM <= scale <= MAX_ZOOM\<close>.\<close>

definition scaleInRange :: "viewer \<Rightarrow> bool" where
  "scaleInRange v = (MIN_ZOOM \<le> scale (zoomState v) \<and> scale (zoomState v) \<le> MAX_ZOOM)"

text \<open>
  No panning at rest, in the two readings of "at rest": the scale is within the tolerance
  of 1 (\<open>isApproximatelyOne\<close>), or the scale is exactly \<open>MIN_ZOOM\<close>.
\<close>

definition atRestCentered :: "viewer \<Rightarrow> bool" where
  "atRestCentered v =
     (isApproximatelyOne (scale (zoomState v)) \<longrightarrow>
        zoom_x (zoomState v) = 0 \<and> zoom_y (zoomState v) = 0)"

definition unzoomedCentered :: "viewer \<Rightarrow> bool" where
  "unzoomedCentered v =
     (scale (zoomState v) = MIN_ZOOM \<longrightarrow> zoom_x (zoomState v) = 0 \<and> zoom_y (zoomState v) = 0)"

section \<open>Properties\<close>

subsection \<open>Index arithmetic\<close>

lemma js_rem_nonneg: "0 < n \<Longrightarrow> 0 \<le> a \<Longrightarrow> js_rem (Idx a) n = Idx (a mod n)"
  by (cases "a = 0") auto

lemma wrapSpec_mod:
  assumes "0 < n"
  shows "wrapSpec (Idx r) n = Idx (r mod n)"
proof -
  define m where "m = sgn r * (\<bar>r\<bar> mod n)"
  have lt: "\<bar>r\<bar> mod n < n" and ge: "0 \<le> \<bar>r\<bar> mod n"
    using assms by simp_all
  have first: "js_rem (Idx r) n = Idx m"
    using assms by (simp add: m_def)
  have "- n < m"
    using lt ge by (cases "r < 0"; cases "r = 0") (simp_all add: m_def)
  then have pos: "0 \<le> m + n" by simp
  have "m mod n = r mod n"
  proof (cases "r < 0")
    case True
    then have "m = - ((- r) mod n)" by (simp add: m_def)
    then show ?thesis by (simp add: mod_minus_eq)
  next
    case False
    then show ?thesis by (cases "r = 0") (simp_all add: m_def)
  qed
  then have "(m + n) mod n = r mod n" by simp
  moreover have "js_rem (Idx (m + n)) n = Idx ((m + n) mod n)"
    using assms pos by (rule js_rem_nonneg)
  ultimately show ?thesis
    using first by (simp add: wrapSpec_def del: js_rem.simps)
qed

lemma nav_wrap:
  assumes "images \<noteq> []" "- int (length images) \<le> r"
  shows "js_rem (js_add (Idx r) (int (length images))) (int (length images))
         = Idx (r mod int (length images))"
proof -
  have "0 < int (length images)" "0 \<le> r + int (length images)"
    using assms by simp_all
  then have "js_rem (Idx (r + int (length images))) (int (length images))
             = Idx ((r + int (length images)) mod int (length images))"
    by (rule js_rem_nonneg)
  then show ?thesis by simp
qed

text \<open>What a navigation does when the requested index is at least \<open>- count\<close>.\<close>

lemma nav_index:
  assumes "images \<noteq> []" "- int (length images) \<le> r"
  shows "navigateToImage cfg images (Idx r) v =
    (None, v\<lparr>currentIndex := Idx (r mod int (length images)),
             fadeListeners := fadeListeners v @
               [getAttribute (images ! nat (r mod int (length images))) (imageUrlAttribute cfg)]\<rparr>)"
  using assms(1)
  by (simp add: navigateToImage_def nav_wrap [OF assms] Let_def del: js_rem.simps js_add.simps)

lemma sampleImages_length: "length sampleImages = 3"
  by (simp add: sampleImages_def)

subsection \<open>Geometry with fewer than two contact points\<close>

text \<open>
  C4 (amended). With fewer than two points \<open>getTouchDistance\<close> returns 0; with exactly one
  point \<open>getTouchCenter\<close> returns that point unchanged. With no point there is nothing to
  return: \<open>getTouchCenter\<close> throws a TypeError, which is the counterexample to the claim
  as written.
\<close>

theorem geometry_degenerate:
  "(length touches < 2 \<longrightarrow> getTouchDistance touches = 0) \<and>
   (length touches = 1 \<longrightarrow>
      getTouchCenter touches
        = Inr \<lparr>center_x = screenX (touches ! 0), center_y = screenY (touches ! 0)\<rparr>)"
  by (cases touches) (simp_all add: getTouchDistance_def getTouchCenter_def)

theorem geometry_degenerate_witness:
  "length [touchAt 3 4] = 1 \<and> getTouchDistance [touchAt 3 4] = 0 \<and>
   getTouchCenter [touchAt 3 4] = Inr \<lparr>center_x = 3, center_y = 4\<rparr>"
  using geometry_degenerate [of "[touchAt 3 4]"] by (simp add: touchAt_def)

theorem getTouchCenter_empty_counterexample:
  "length ([] :: touch list) < 2 \<and> getTouchCenter [] = Inl TypeError"
  by (simp add: getTouchCenter_def)

subsection \<open>Navigation wraps the index\<close>

text \<open>
  C3 (amended). For a non-empty gallery and every requested index that is at least
  \<open>- count\<close>, \<open>navigateToImage\<close> does not throw and stores the index
  \<^verbatim>\<open>((requestedIndex % count) + count) % count\<close>, which lies in \<open>[0, count)\<close>. Below
  \<open>- count\<close> the single remainder of line 156 stays negative: for three images and the
  request \<open>-5\<close> it stores \<open>-2\<close>, where the double remainder is \<open>1\<close>.
\<close>

theorem navigateToImage_wraps:
  assumes "images \<noteq> []" and "- int (length images) \<le> requestedIndex"
  shows "fst (navigateToImage cfg images (Idx requestedIndex) v) = None \<and>
         currentIndex (snd (navigateToImage cfg images (Idx requestedIndex) v))
           = wrapSpec (Idx requestedIndex) (int (length images)) \<and>
         (\<exists>i. currentIndex (snd (navigateToImage cfg images (Idx requestedIndex) v)) = Idx i
              \<and> 0 \<le> i \<and> i < int (length images))"
proof -
  have "0 < int (length images)" using assms(1) by simp
  then have "wrapSpec (Idx requestedIndex) (int (length images))
             = Idx (requestedIndex mod int (length images))"
    by (rule wrapSpec_mod)
  then show ?thesis
    using assms(1) by (simp add: nav_index [OF assms])
qed

theorem navigateToImage_wraps_witness:
  "sampleImages \<noteq> [] \<and> - int (length sampleImages) \<le> - 1 \<and>
   fst (navigateToImage sampleConfig sampleImages (Idx (- 1)) moduleState) = None \<and>
   currentIndex (snd (navigateToImage sampleConfig sampleImages (Idx (- 1)) moduleState))
     = wrapSpec (Idx (- 1)) (int (length sampleImages)) \<and>
   wrapSpec (Idx (- 1)) (int (length sampleImages)) = Idx 2"
proof -
  have a: "sampleImages \<noteq> []" by (simp add: sampleImages_def)
  have b: "- int (length sampleImages) \<le> - 1" by (simp add: sampleImages_length)
  have c: "wrapSpec (Idx (- 1)) (int (length sampleImages)) = Idx 2"
    by (simp add: sampleImages_length wrapSpec_def)
  show ?thesis
    using a b c navigateToImage_wraps [OF a b, of sampleConfig moduleState] by simp
qed

theorem navigateToImage_below_counterexample:
  "currentIndex (snd (navigateToImage sampleConfig sampleImages (Idx (- 5)) moduleState))
     = Idx (- 2) \<and>
   wrapSpec (Idx (- 5)) (int (length sampleImages)) = Idx 1 \<and>
   fst (navigateToImage sampleConfig sampleImages (Idx (- 5)) moduleState) = Some TypeError"
  by (simp add: navigateToImage_def sampleImages_length wrapSpec_def Let_def)

subsection \<open>A full wrap returns to the start\<close>

lemma repeatNavigation_index:
  assumes "images \<noteq> []" "\<bar>d\<bar> \<le> int (length images)"
  shows "currentIndex v = Idx i \<Longrightarrow> 0 \<le> i \<Longrightarrow> i < int (length images) \<Longrightarrow>
         currentIndex (repeatNavigation k cfg images d v) = Idx ((i + int k * d) mod int (length images))"
proof (induction k arbitrary: v i)
  case 0
  then show ?case by simp
next
  case (Suc k)
  let ?n = "int (length images)"
  let ?v' = "snd (navigationHandler cfg images d v)"
  have r: "- ?n \<le> i + d" using Suc.prems assms(2) by linarith
  have idx: "currentIndex ?v' = Idx ((i + d) mod ?n)"
    using Suc.prems(1) by (simp add: navigationHandler_def nav_index [OF assms(1) r])
  have n: "0 < ?n" using assms(1) by simp
  have "currentIndex (repeatNavigation k cfg images d ?v') = Idx (((i + d) mod ?n + int k * d) mod ?n)"
    using n by (intro Suc.IH [OF idx]) simp_all
  moreover have "((i + d) mod ?n + int k * d) mod ?n = (i + int (Suc k) * d) mod ?n"
  proof -
    have "((i + d) mod ?n + int k * d) mod ?n = ((i + d) + int k * d) mod ?n"
      by (rule mod_add_left_eq)
    also have "(i + d) + int k * d = i + int (Suc k) * d"
      by (simp add: algebra_simps)
    finally show ?thesis .
  qed
  ultimately show ?case by simp
qed

text \<open>
  C9. From every index in \<open>[0, count)\<close> of a non-empty gallery, a navigation whose total
  delta is \<open>count\<close> returns to the same index: in one call with
  \<open>currentIndex + count\<close>, by \<open>count\<close> presses of the next button, and by \<open>count\<close>
  presses of the previous button.
\<close>

theorem full_wrap_returns:
  assumes "images \<noteq> []" and "currentIndex v = Idx i" and "0 \<le> i" and "i < int (length images)"
  shows "currentIndex (snd (navigateToImage cfg images
                              (js_add (currentIndex v) (int (length images))) v)) = Idx i \<and>
         currentIndex (repeatNavigation (length images) cfg images 1 v) = Idx i \<and>
         currentIndex (repeatNavigation (length images) cfg images (- 1) v) = Idx i"
proof -
  let ?n = "int (length images)"
  have n: "0 < ?n" using assms(1) by simp
  have r: "- ?n \<le> i + ?n" using assms(3) by simp
  have one: "currentIndex (snd (navigateToImage cfg images (js_add (currentIndex v) ?n) v)) = Idx i"
    using assms(3,4) by (simp add: assms(2) nav_index [OF assms(1) r])
  have d1: "\<bar>1::int\<bar> \<le> ?n" and d2: "\<bar>- 1::int\<bar> \<le> ?n" using n by linarith+
  have two: "currentIndex (repeatNavigation (length images) cfg images 1 v) = Idx i"
    using repeatNavigation_index [OF assms(1) d1 assms(2,3,4), of "length images" cfg] assms(3,4)
    by simp
  have three: "currentIndex (repeatNavigation (length images) cfg images (- 1) v) = Idx i"
    using repeatNavigation_index [OF assms(1) d2 assms(2,3,4), of "length images" cfg] assms(3,4)
    by simp
  show ?thesis using one two three by simp
qed

theorem full_wrap_returns_witness:
  "sampleImages \<noteq> [] \<and> (0::int) \<le> 1 \<and> 1 < int (length sampleImages) \<and>
   currentIndex (snd (navigateToImage sampleConfig sampleImages
       (js_add (currentIndex (moduleState\<lparr>currentIndex := Idx 1\<rparr>)) (int (length sampleImages)))
       (moduleState\<lparr>currentIndex := Idx 1\<rparr>))) = Idx 1 \<and>
   currentIndex (repeatNavigation (length sampleImages) sampleConfig sampleImages 1
       (moduleState\<lparr>currentIndex := Idx 1\<rparr>)) = Idx 1 \<and>
   currentIndex (repeatNavigation (length sampleImages) sampleConfig sampleImages (- 1)
       (moduleState\<lparr>currentIndex := Idx 1\<rparr>)) = Idx 1"
proof -
  have a: "sampleImages \<noteq> []" by (simp add: sampleImages_def)
  have b: "currentIndex (moduleState\<lparr>currentIndex := Idx 1\<rparr>) = Idx 1" by simp
  have c: "(0::int) \<le> 1" by simp
  have d: "1 < int (length sampleImages)" by (simp add: sampleImages_length)
  show ?thesis
    using a c d full_wrap_returns [OF a b c d, of sampleConfig] by simp
qed

subsection \<open>Opening the viewer\<close>

lemma findIndexFrom_none: "\<forall>x\<in>set xs. \<not> P x \<Longrightarrow> findIndexFrom i P xs = - 1"
  by (induction xs arbitrary: i) simp_all

lemma findIndexFrom_some:
  "\<exists>x\<in>set xs. P x \<Longrightarrow>
     i \<le> findIndexFrom i P xs \<and> findIndexFrom i P xs < i + int (length xs) \<and>
     P (xs ! nat (findIndexFrom i P xs - i))"
proof (induction xs arbitrary: i)
  case Nil
  then show ?case by simp
next
  case (Cons x xs)
  show ?case
  proof (cases "P x")
    case True
    then show ?thesis by simp
  next
    case False
    with Cons.prems have "\<exists>y\<in>set xs. P y" by simp
    from Cons.IH [OF this, of "i + 1"]
    have ih: "i + 1 \<le> findIndexFrom (i + 1) P xs"
      "findIndexFrom (i + 1) P xs < i + 1 + int (length xs)"
      "P (xs ! nat (findIndexFrom (i + 1) P xs - (i + 1)))" by simp_all
    define j where "j = findIndexFrom (i + 1) P xs"
    have "nat (j - i) = Suc (nat (j - (i + 1)))" using ih(1) by (simp add: j_def)
    then have "(x # xs) ! nat (j - i) = xs ! nat (j - (i + 1))" by simp
    then show ?thesis using False ih by (simp add: j_def)
  qed
qed

lemma preloadAdjacent_ok:
  assumes "0 \<le> i" "i < int (length images)"
  shows "preloadAdjacentImages images (Idx i) = None"
proof -
  let ?n = "int (length images)"
  have n: "0 < ?n" using assms by linarith
  have p: "js_rem (Idx (i - 1 + ?n)) ?n = Idx ((i - 1 + ?n) mod ?n)"
    using n assms by (intro js_rem_nonneg) simp_all
  have q: "js_rem (Idx (i + 1)) ?n = Idx ((i + 1) mod ?n)"
    using n assms by (intro js_rem_nonneg) simp_all
  have "element_at images (Idx ((i - 1 + ?n) mod ?n)) \<noteq> None" using n by simp
  moreover have "element_at images (Idx ((i + 1) mod ?n)) \<noteq> None" using n by simp
  ultimately show ?thesis
    using p q by (simp add: preloadAdjacentImages_def Let_def del: js_rem.simps element_at.simps)
qed

text \<open>
  C10. A click on an \<open>IMG\<close> that carries the URL attribute opens the viewer safely exactly
  when the image is among those selected by \<open>imageSelector\<close>. If it is not,
  \<open>findIndex\<close> yields \<open>-1\<close>, \<open>images[-1]\<close> is absent and the handler throws a TypeError
  (with the overlay already displayed); if it is, the handler does not throw and the
  index it stores addresses the clicked image.
\<close>

theorem click_requires_membership:
  assumes "tagName target = ''IMG''" and "hasAttribute target (imageUrlAttribute cfg)"
  shows "(target \<notin> set (querySelectorAll (imageSelector cfg) doc) \<longrightarrow>
            findIndex (\<lambda>img. img = target) (querySelectorAll (imageSelector cfg) doc) = - 1 \<and>
            element_at (querySelectorAll (imageSelector cfg) doc) (Idx (- 1)) = None \<and>
            clickHandler cfg doc v target
              = (Some TypeError, v\<lparr>currentIndex := Idx (- 1), displayed := True\<rparr>)) \<and>
         (target \<in> set (querySelectorAll (imageSelector cfg) doc) \<longrightarrow>
            fst (clickHandler cfg doc v target) = None \<and>
            element_at (querySelectorAll (imageSelector cfg) doc)
              (currentIndex (snd (clickHandler cfg doc v target))) = Some target)"
proof (intro conjI impI)
  let ?images = "querySelectorAll (imageSelector cfg) doc"
  let ?k = "findIndex (\<lambda>img. img = target) ?images"
  {
    assume "target \<notin> set ?images"
    then have "\<forall>x\<in>set ?images. \<not> x = target" by auto
    then show k: "?k = - 1" unfolding findIndex_def by (rule findIndexFrom_none)
    show "element_at ?images (Idx (- 1)) = None" by simp
    show "clickHandler cfg doc v target
            = (Some TypeError, v\<lparr>currentIndex := Idx (- 1), displayed := True\<rparr>)"
      using assms k by (simp add: clickHandler_def Let_def)
  }
  {
    assume "target \<in> set ?images"
    then have "\<exists>x\<in>set ?images. x = target" by auto
    from findIndexFrom_some [OF this, of 0]
    have k: "0 \<le> ?k" "?k < int (length ?images)" "?images ! nat ?k = target"
      by (simp_all add: findIndex_def)
    then have at: "element_at ?images (Idx ?k) = Some target" by simp
    have pre: "preloadAdjacentImages ?images (Idx ?k) = None"
      using k(1,2) by (rule preloadAdjacent_ok)
    have res: "clickHandler cfg doc v target =
       (None, (resetZoom (v\<lparr>currentIndex := Idx ?k, displayed := True,
                              imageSrc := getAttribute target (imageUrlAttribute cfg)\<rparr>))
                \<lparr>listenersAttached := True, keydownAttached := True\<rparr>)"
      using assms at pre by (simp add: clickHandler_def Let_def del: element_at.simps)
    show "fst (clickHandler cfg doc v target) = None" by (simp add: res)
    show "element_at ?images (currentIndex (snd (clickHandler cfg doc v target))) = Some target"
      using at by (simp add: res resetZoom_def applyZoomTransform_def del: element_at.simps)
  }
qed

theorem click_requires_membership_witness:
  "tagName (sampleImage 2) = ''IMG'' \<and>
   hasAttribute (sampleImage 2) (imageUrlAttribute narrowConfig) \<and>
   sampleImage 2 \<notin> set (querySelectorAll (imageSelector narrowConfig) sampleImages) \<and>
   clickHandler narrowConfig sampleImages moduleState (sampleImage 2)
     = (Some TypeError, moduleState\<lparr>currentIndex := Idx (- 1), displayed := True\<rparr>) \<and>
   sampleImage 1 \<in> set (querySelectorAll (imageSelector narrowConfig) sampleImages) \<and>
   fst (clickHandler narrowConfig sampleImages moduleState (sampleImage 1)) = None"
proof -
  have t2: "tagName (sampleImage 2) = ''IMG''" and t1: "tagName (sampleImage 1) = ''IMG''"
    by (simp_all add: sampleImage_def)
  have h2: "hasAttribute (sampleImage 2) (imageUrlAttribute narrowConfig)"
    and h1: "hasAttribute (sampleImage 1) (imageUrlAttribute narrowConfig)"
    by (simp_all add: sampleImage_def narrowConfig_def sampleConfig_def hasAttribute_def)
  have out: "sampleImage 2 \<notin> set (querySelectorAll (imageSelector narrowConfig) sampleImages)"
    by (simp add: querySelectorAll_def narrowConfig_def sampleImages_def sampleImage_def)
  have inn: "sampleImage 1 \<in> set (querySelectorAll (imageSelector narrowConfig) sampleImages)"
    by (simp add: querySelectorAll_def narrowConfig_def sampleImages_def sampleImage_def)
  show ?thesis
    using t2 h2 out inn
      click_requires_membership [OF t2 h2, of sampleImages moduleState]
      click_requires_membership [OF t1 h1, of sampleImages moduleState]
    by simp
qed

subsection \<open>The handlers on one and two contacts\<close>

lemma getTouchCenter_two:
  "length touches = 2 \<Longrightarrow>
     getTouchCenter touches
       = Inr \<lparr>center_x = (screenX (touches ! 0) + screenX (touches ! 1)) / 2,
              center_y = (screenY (touches ! 0) + screenY (touches ! 1)) / 2\<rparr>"
  by (simp add: getTouchCenter_def Let_def)

lemma touchAt_sel [simp]: "screenX (touchAt a b) = a" "screenY (touchAt a b) = b"
  by (simp_all add: touchAt_def)

lemma getTouchDistance_horizontal:
  "getTouchDistance [touchAt a b, touchAt c b] = \<bar>c - a\<bar>"
  by (simp add: getTouchDistance_def touchAt_def)

lemma clampScale_bounds: "MIN_ZOOM \<le> clampScale s \<and> clampScale s \<le> MAX_ZOOM"
  by (simp add: clampScale_def MIN_ZOOM_def MAX_ZOOM_def)

lemma pinchZoom_scale:
  "scale (zoomState (pinchZoom d c v))
     = clampScale (initialScale (zoomState v) * (d / initialDistance (touchState v)))"
  by (simp add: pinchZoom_def applyZoomTransform_def Let_def)

lemma handleTouchMove_two:
  assumes "length touches = 2"
  shows "handleTouchMove v touches =
     (let center = \<lparr>center_x = (screenX (touches ! 0) + screenX (touches ! 1)) / 2,
                     center_y = (screenY (touches ! 0) + screenY (touches ! 1)) / 2\<rparr>;
          v1 = (if initialDistance (touchState v) > 0
                then pinchZoom (getTouchDistance touches) center v else v)
      in (None, v1\<lparr>touchState := (touchState v1)\<lparr>lastCenterX := center_x center,
                                                   lastCenterY := center_y center,
                                                   isZooming := True\<rparr>\<rparr>))"
  using assms by (simp add: handleTouchMove_def getTouchCenter_two Let_def)

lemma handleTouchStart_two:
  assumes "length touches = 2"
  shows "handleTouchStart v touches =
     (None, v\<lparr>zoomState := (zoomState v)\<lparr>initialScale := scale (zoomState v),
                                           initialX := zoom_x (zoomState v),
                                           initialY := zoom_y (zoomState v)\<rparr>,
              touchState := (touchState v)
                \<lparr>initialDistance := getTouchDistance touches,
                 lastCenterX := (screenX (touches ! 0) + screenX (touches ! 1)) / 2,
                 lastCenterY := (screenY (touches ! 0) + screenY (touches ! 1)) / 2,
                 isZooming := True\<rparr>\<rparr>)"
  using assms by (simp add: handleTouchStart_def getTouchCenter_two Let_def)

lemma pinchStarted_fields:
  "initialDistance (touchState pinchStarted) = 100" "initialScale (zoomState pinchStarted) = 1"
  "scale (zoomState pinchStarted) = 1"
  by (simp_all add: pinchStarted_def handleTouchStart_def getTouchCenter_def getTouchDistance_horizontal moduleState_def Let_def)

lemmas eval_defs = dispatch_def clickHandler_def handleTouchStart_def handleTouchMove_def
  handleTouchEnd_def pinchZoom_def resetZoom_def applyZoomTransform_def
  getTouchCenter_def getTouchDistance_horizontal isApproximatelyOne_def clampScale_def
  MIN_ZOOM_def MAX_ZOOM_def ZOOM_TOLERANCE_def
  querySelectorAll_def sampleImages_def sampleImage_def sampleConfig_def hasAttribute_def
  getAttribute_def findIndex_def preloadAdjacentImages_def moduleState_def Let_def

lemma zoomedViewer_fields:
  "scale (zoomState zoomedViewer) = 2"
  "zoom_x (zoomState zoomedViewer) = 25"
  "zoom_y (zoomState zoomedViewer) = 0"
  "lastCenterX (touchState zoomedViewer) = 100"
  "lastCenterY (touchState zoomedViewer) = 100"
  by (simp_all add: zoomedViewer_def eval_defs)

lemma swipeStart_fields:
  "isZooming (touchState swipeStart) = False"
  "scale (zoomState swipeStart) = 1"
  "startX (touchState swipeStart) = 300"
  "startY (touchState swipeStart) = 200"
  "currentIndex swipeStart = Idx 0"
  "fadeListeners swipeStart = []"
  by (simp_all add: swipeStart_def eval_defs)

subsection \<open>Pinch: the new scale\<close>

text \<open>
  C6. On a move with two contacts: when the stored initial pinch distance is positive, the
  new scale is \<open>initialScale * currentDistance / initialDistance\<close> clamped into \<open>[1, 5]\<close>;
  when it is 0 (not positive), the computation is skipped and scale, offset and the
  rendered transform stay as they are. The handler does not throw. The witness runs the
  examples: from distance 100 at scale 1, distance 200 gives 2 and distance 1000 gives 5.
\<close>

theorem pinch_scale:
  assumes "length touches = 2"
  shows "(0 < initialDistance (touchState v) \<longrightarrow>
            scale (zoomState (snd (handleTouchMove v touches)))
              = clampScale (initialScale (zoomState v)
                            * (getTouchDistance touches / initialDistance (touchState v))) \<and>
            1 \<le> scale (zoomState (snd (handleTouchMove v touches))) \<and>
            scale (zoomState (snd (handleTouchMove v touches))) \<le> 5) \<and>
         (initialDistance (touchState v) \<le> 0 \<longrightarrow>
            zoomState (snd (handleTouchMove v touches)) = zoomState v \<and>
            imageTransform (snd (handleTouchMove v touches)) = imageTransform v) \<and>
         fst (handleTouchMove v touches) = None"
  using clampScale_bounds [of "initialScale (zoomState v)
                            * (getTouchDistance touches / initialDistance (touchState v))"]
  by (simp add: handleTouchMove_two [OF assms] Let_def pinchZoom_scale MIN_ZOOM_def MAX_ZOOM_def)

theorem pinch_scale_witness:
  "length [touchAt 0 0, touchAt 200 0] = 2 \<and>
   0 < initialDistance (touchState pinchStarted) \<and>
   scale (zoomState (snd (handleTouchMove pinchStarted [touchAt 0 0, touchAt 200 0]))) = 2 \<and>
   scale (zoomState (snd (handleTouchMove pinchStarted [touchAt 0 0, touchAt 1000 0]))) = 5 \<and>
   initialDistance (touchState moduleState) = 0 \<and>
   scale (zoomState (snd (handleTouchMove moduleState [touchAt 0 0, touchAt 200 0]))) = 1"
proof -
  have two: "length [touchAt 0 0, touchAt 200 0] = 2" "length [touchAt 0 0, touchAt 1000 0] = 2"
    by simp_all
  have zero: "initialDistance (touchState moduleState) = 0" "scale (zoomState moduleState) = 1"
    by (simp_all add: moduleState_def)
  show ?thesis
    using pinch_scale [OF two(1), of pinchStarted] pinch_scale [OF two(2), of pinchStarted]
      pinch_scale [OF two(1), of moduleState] zero
    by (simp add: pinchStarted_fields getTouchDistance_horizontal clampScale_def MIN_ZOOM_def MAX_ZOOM_def)
qed

subsection \<open>Pan while zoomed\<close>

text \<open>
  C7. On a move with one contact while \<open>scale > MIN_ZOOM\<close>: each offset grows by the
  delta from the last center to the touch, divided by the scale; it is added to the
  current offset, not to the offset at the start of the gesture. The scale is unchanged,
  the rendered transform carries the stored scale and offset as they are, the last center
  becomes the touch and the zooming flag is set. The witness: at scale 2 a move of
  (20, 0) changes the offset by (10, 0).
\<close>

theorem pan_accumulates:
  assumes "length touches = 1" and "scale (zoomState v) > MIN_ZOOM"
  shows "zoom_x (zoomState (snd (handleTouchMove v touches)))
           = zoom_x (zoomState v)
             + (screenX (touches ! 0) - lastCenterX (touchState v)) / scale (zoomState v) \<and>
         zoom_y (zoomState (snd (handleTouchMove v touches)))
           = zoom_y (zoomState v)
             + (screenY (touches ! 0) - lastCenterY (touchState v)) / scale (zoomState v) \<and>
         scale (zoomState (snd (handleTouchMove v touches))) = scale (zoomState v) \<and>
         imageTransform (snd (handleTouchMove v touches))
           = \<lparr>t_scale = scale (zoomState (snd (handleTouchMove v touches))),
              t_x = zoom_x (zoomState (snd (handleTouchMove v touches))),
              t_y = zoom_y (zoomState (snd (handleTouchMove v touches)))\<rparr> \<and>
         lastCenterX (touchState (snd (handleTouchMove v touches))) = screenX (touches ! 0) \<and>
         lastCenterY (touchState (snd (handleTouchMove v touches))) = screenY (touches ! 0) \<and>
         isZooming (touchState (snd (handleTouchMove v touches))) \<and>
         fst (handleTouchMove v touches) = None"
  using assms by (simp add: handleTouchMove_def applyZoomTransform_def Let_def)

theorem pan_accumulates_witness:
  "length [touchAt 120 100] = 1 \<and> scale (zoomState zoomedViewer) > MIN_ZOOM \<and>
   scale (zoomState zoomedViewer) = 2 \<and>
   screenX ([touchAt 120 100] ! 0) - lastCenterX (touchState zoomedViewer) = 20 \<and>
   screenY ([touchAt 120 100] ! 0) - lastCenterY (touchState zoomedViewer) = 0 \<and>
   zoom_x (zoomState (snd (handleTouchMove zoomedViewer [touchAt 120 100])))
     = zoom_x (zoomState zoomedViewer) + 10 \<and>
   zoom_y (zoomState (snd (handleTouchMove zoomedViewer [touchAt 120 100])))
     = zoom_y (zoomState zoomedViewer) + 0 \<and>
   imageTransform (snd (handleTouchMove zoomedViewer [touchAt 120 100]))
     = \<lparr>t_scale = 2, t_x = 35, t_y = 0\<rparr>"
proof -
  have a: "length [touchAt 120 100] = 1" by simp
  have b: "scale (zoomState zoomedViewer) > MIN_ZOOM"
    by (simp add: zoomedViewer_fields MIN_ZOOM_def)
  show ?thesis
    using b pan_accumulates [OF a b]
    by (simp add: zoomedViewer_fields)
qed

subsection \<open>Swipe to navigate\<close>

lemma navigateToImage_fires:
  "fst (navigateToImage cfg images idx v) \<noteq> None \<or>
   fadeListeners (snd (navigateToImage cfg images idx v)) \<noteq> fadeListeners v"
  by (simp add: navigateToImage_def Let_def split: option.splits)

lemma navigateToImage_touchState_irrelevant:
  "fst (navigateToImage cfg images idx (v\<lparr>touchState := ts\<rparr>)) = fst (navigateToImage cfg images idx v) \<and>
   currentIndex (snd (navigateToImage cfg images idx (v\<lparr>touchState := ts\<rparr>)))
     = currentIndex (snd (navigateToImage cfg images idx v)) \<and>
   fadeListeners (snd (navigateToImage cfg images idx (v\<lparr>touchState := ts\<rparr>)))
     = fadeListeners (snd (navigateToImage cfg images idx v))"
  by (simp add: navigateToImage_def Let_def split: option.splits)

text \<open>
  C5. On a touch end with exactly one released contact, the zooming flag false, no contact
  remaining and the scale within tolerance of 1, let \<open>dX\<close> and \<open>dY\<close> be the displacement from the
  gesture's start to the released point. If \<open>|dX| > |dY|\<close> and \<open>|dX| > swipeThreshold\<close>, the
  handler does what \<open>navigateToImage\<close> does with \<open>currentIndex - 1\<close> when \<open>dX > 0\<close> and with
  \<open>currentIndex + 1\<close> otherwise (same exception, same index, same fade listeners); if not,
  it does not throw and leaves index and fade listeners alone. A navigation is always
  visible (it throws or registers a fade listener), so it fires if and only if the two
  conditions hold.
\<close>

theorem swipe_navigates:
  assumes "length changedTouches = 1" and "\<not> isZooming (touchState v)"
    and "length touches = 0" and "isApproximatelyOne (scale (zoomState v))"
  shows
    "(let dX = screenX (changedTouches ! 0) - startX (touchState v);
          dY = screenY (changedTouches ! 0) - startY (touchState v);
          fires = (\<bar>dX\<bar> > \<bar>dY\<bar> \<and> \<bar>dX\<bar> > swipeThreshold cfg);
          nav = navigateToImage cfg images
                  (if dX > 0 then js_add (currentIndex v) (- 1) else js_add (currentIndex v) 1) v;
          r = handleTouchEnd cfg images v changedTouches touches
      in (fires \<longrightarrow> fst r = fst nav \<and> currentIndex (snd r) = currentIndex (snd nav)
                     \<and> fadeListeners (snd r) = fadeListeners (snd nav)) \<and>
         (\<not> fires \<longrightarrow> fst r = None \<and> currentIndex (snd r) = currentIndex v
                     \<and> fadeListeners (snd r) = fadeListeners v) \<and>
         ((fst r \<noteq> None \<or> fadeListeners (snd r) \<noteq> fadeListeners v) = fires))"
proof -
  define dX where "dX = screenX (changedTouches ! 0) - startX (touchState v)"
  define dY where "dY = screenY (changedTouches ! 0) - startY (touchState v)"
  define fires where "fires = (\<bar>dX\<bar> > \<bar>dY\<bar> \<and> \<bar>dX\<bar> > swipeThreshold cfg)"
  define tgt where "tgt = (if dX > 0 then js_add (currentIndex v) (- 1) else js_add (currentIndex v) 1)"
  define v1 where "v1 = v\<lparr>touchState := (touchState v)\<lparr>endX := screenX (changedTouches ! 0),
                                                         endY := screenY (changedTouches ! 0)\<rparr>\<rparr>"
  define nav where "nav = navigateToImage cfg images tgt v"
  define nav1 where "nav1 = navigateToImage cfg images tgt v1"
  define r where "r = handleTouchEnd cfg images v changedTouches touches"
  have same: "fst nav1 = fst nav" "currentIndex (snd nav1) = currentIndex (snd nav)"
    "fadeListeners (snd nav1) = fadeListeners (snd nav)"
    using navigateToImage_touchState_irrelevant [where cfg = cfg and images = images and idx = tgt and v = v]
    by (simp_all add: nav1_def nav_def v1_def)
  have guard: "length changedTouches = 1 \<and> \<not> isZooming (touchState v) \<and> length touches = 0
               \<and> isApproximatelyOne (scale (zoomState v))"
    using assms by simp
  have inner: "(let touch = changedTouches ! 0;
                    w = v\<lparr>touchState := (touchState v)\<lparr>endX := screenX touch,
                                                        endY := screenY touch\<rparr>\<rparr>;
                    swipeDistanceX = endX (touchState w) - startX (touchState w);
                    swipeDistanceY = endY (touchState w) - startY (touchState w)
                in if \<bar>swipeDistanceX\<bar> > \<bar>swipeDistanceY\<bar> \<and> \<bar>swipeDistanceX\<bar> > swipeThreshold cfg
                   then navigateToImage cfg images
                          (if swipeDistanceX > 0 then js_add (currentIndex w) (- 1)
                           else js_add (currentIndex w) 1) w
                   else (None, w))
               = (if fires then nav1 else (None, v1))"
    by (simp only: Let_def fires_def dX_def dY_def nav1_def tgt_def v1_def) simp
  have r_eq: "r = (case (if fires then nav1 else (None, v1)) of
                     (Some e, v2) \<Rightarrow> (Some e, v2)
                   | (None, v2) \<Rightarrow> (None, v2\<lparr>touchState := (touchState v2)\<lparr>isZooming := False,
                                                    initialDistance := 0\<rparr>\<rparr>))"
    unfolding r_def handleTouchEnd_def if_P [OF guard] inner
    using assms(3) by (simp split: prod.splits option.splits)
  have yes: "fires \<Longrightarrow> fst r = fst nav \<and> currentIndex (snd r) = currentIndex (snd nav)
                     \<and> fadeListeners (snd r) = fadeListeners (snd nav)"
    using same by (cases nav1) (auto simp: r_eq split: option.splits)
  have no: "\<not> fires \<Longrightarrow> fst r = None \<and> currentIndex (snd r) = currentIndex v
                     \<and> fadeListeners (snd r) = fadeListeners v"
    by (simp add: r_eq v1_def)
  have "fst nav \<noteq> None \<or> fadeListeners (snd nav) \<noteq> fadeListeners v"
    unfolding nav_def by (rule navigateToImage_fires)
  with yes no have iff: "(fst r \<noteq> None \<or> fadeListeners (snd r) \<noteq> fadeListeners v) = fires"
    by (cases fires) auto
  show ?thesis
    using yes no iff
    unfolding Let_def dX_def [symmetric] dY_def [symmetric] fires_def [symmetric]
      tgt_def [symmetric] nav_def [symmetric] r_def [symmetric]
    by blast
qed

theorem swipe_navigates_witness:
  "length [touchAt 200 200] = 1 \<and> \<not> isZooming (touchState swipeStart) \<and>
   length ([] :: touch list) = 0 \<and> isApproximatelyOne (scale (zoomState swipeStart)) \<and>
   currentIndex swipeStart = Idx 0 \<and>
   fst (handleTouchEnd sampleConfig sampleImages swipeStart [touchAt 200 200] []) = None \<and>
   currentIndex (snd (handleTouchEnd sampleConfig sampleImages swipeStart [touchAt 200 200] []))
     = Idx 1 \<and>
   currentIndex (snd (handleTouchEnd sampleConfig sampleImages swipeStart [touchAt 400 200] []))
     = Idx 2 \<and>
   currentIndex (snd (handleTouchEnd sampleConfig sampleImages swipeStart [touchAt 270 200] []))
     = Idx 0 \<and>
   fadeListeners (snd (handleTouchEnd sampleConfig sampleImages swipeStart [touchAt 270 200] []))
     = [] \<and>
   currentIndex (snd (handleTouchEnd (sampleConfig\<lparr>swipeThreshold := 20\<rparr>) sampleImages
                        swipeStart [touchAt 340 260] [])) = Idx 0 \<and>
   fadeListeners (snd (handleTouchEnd (sampleConfig\<lparr>swipeThreshold := 20\<rparr>) sampleImages
                        swipeStart [touchAt 340 260] [])) = []"
proof -
  have a: "length [t] = 1" for t :: touch by simp
  have b: "\<not> isZooming (touchState swipeStart)" by (simp add: swipeStart_fields)
  have c: "length ([] :: touch list) = 0" by simp
  have d: "isApproximatelyOne (scale (zoomState swipeStart))"
    by (simp add: swipeStart_fields isApproximatelyOne_def ZOOM_TOLERANCE_def)
  have n: "sampleImages \<noteq> []" by (simp add: sampleImages_def)
  have r1: "- int (length sampleImages) \<le> 1" and r2: "- int (length sampleImages) \<le> - 1"
    by (simp_all add: sampleImages_length)
  have thr: "swipeThreshold sampleConfig = 50" by (simp add: sampleConfig_def)
  show ?thesis
    using b d
      swipe_navigates [OF a b c d, of "touchAt 200 200" sampleConfig sampleImages]
      swipe_navigates [OF a b c d, of "touchAt 400 200" sampleConfig sampleImages]
      swipe_navigates [OF a b c d, of "touchAt 270 200" sampleConfig sampleImages]
      swipe_navigates [OF a b c d, of "touchAt 340 260" "sampleConfig\<lparr>swipeThreshold := 20\<rparr>"
        sampleImages]
    by (simp add: Let_def swipeStart_fields thr nav_index [OF n r1] nav_index [OF n r2]
        sampleImages_length)
qed

subsection \<open>Which events are pinches\<close>

text \<open>
  C2 (amended). The touch-start and touch-move handlers test the number of contacts for
  being exactly 1 and exactly 2. An event with exactly two contacts is processed as a
  pinch: the start records the distance and sets the zooming flag, the move records the
  centroid and sets the zooming flag, and neither throws. An event with three or more
  contacts, or with none, changes nothing at all.
\<close>

theorem pinch_only_two_contacts:
  "(length touches = 2 \<longrightarrow>
      fst (handleTouchStart v touches) = None \<and>
      isZooming (touchState (snd (handleTouchStart v touches))) \<and>
      initialDistance (touchState (snd (handleTouchStart v touches))) = getTouchDistance touches \<and>
      fst (handleTouchMove v touches) = None \<and>
      isZooming (touchState (snd (handleTouchMove v touches))) \<and>
      lastCenterX (touchState (snd (handleTouchMove v touches)))
        = (screenX (touches ! 0) + screenX (touches ! 1)) / 2 \<and>
      lastCenterY (touchState (snd (handleTouchMove v touches)))
        = (screenY (touches ! 0) + screenY (touches ! 1)) / 2) \<and>
   (length touches = 0 \<or> 3 \<le> length touches \<longrightarrow>
      handleTouchStart v touches = (None, v) \<and> handleTouchMove v touches = (None, v))"
proof (intro conjI impI)
  assume two: "length touches = 2"
  show "fst (handleTouchStart v touches) = None"
    "isZooming (touchState (snd (handleTouchStart v touches)))"
    "initialDistance (touchState (snd (handleTouchStart v touches))) = getTouchDistance touches"
    by (simp_all add: handleTouchStart_two [OF two])
  show "fst (handleTouchMove v touches) = None"
    "isZooming (touchState (snd (handleTouchMove v touches)))"
    "lastCenterX (touchState (snd (handleTouchMove v touches)))
        = (screenX (touches ! 0) + screenX (touches ! 1)) / 2"
    "lastCenterY (touchState (snd (handleTouchMove v touches)))
        = (screenY (touches ! 0) + screenY (touches ! 1)) / 2"
    by (simp_all add: handleTouchMove_two [OF two] Let_def)
next
  assume "length touches = 0 \<or> 3 \<le> length touches"
  then have "length touches \<noteq> 1" "length touches \<noteq> 2" by auto
  then show "handleTouchStart v touches = (None, v)" "handleTouchMove v touches = (None, v)"
    by (simp_all add: handleTouchStart_def handleTouchMove_def)
qed

theorem pinch_only_two_contacts_witness:
  "length [touchAt 0 0, touchAt 100 0] = 2 \<and>
   isZooming (touchState (snd (handleTouchStart moduleState [touchAt 0 0, touchAt 100 0]))) \<and>
   initialDistance (touchState (snd (handleTouchStart moduleState [touchAt 0 0, touchAt 100 0])))
     = 100 \<and>
   3 \<le> length [touchAt 0 0, touchAt 100 0, touchAt 50 50] \<and>
   handleTouchStart moduleState [touchAt 0 0, touchAt 100 0, touchAt 50 50] = (None, moduleState)"
  using pinch_only_two_contacts [of "[touchAt 0 0, touchAt 100 0]" moduleState]
    pinch_only_two_contacts [of "[touchAt 0 0, touchAt 100 0, touchAt 50 50]" moduleState]
  by (simp add: getTouchDistance_horizontal)

theorem three_contacts_counterexample:
  "2 \<le> length [touchAt 0 0, touchAt 100 0, touchAt 50 50] \<and>
   handleTouchStart moduleState [touchAt 0 0, touchAt 100 0, touchAt 50 50] = (None, moduleState) \<and>
   \<not> isZooming (touchState (snd (handleTouchStart moduleState
                                    [touchAt 0 0, touchAt 100 0, touchAt 50 50]))) \<and>
   isZooming (touchState (snd (handleTouchStart moduleState [touchAt 0 0, touchAt 100 0]))) \<and>
   handleTouchMove pinchStarted [touchAt 0 0, touchAt 200 0, touchAt 50 50] = (None, pinchStarted) \<and>
   scale (zoomState (snd (handleTouchMove pinchStarted [touchAt 0 0, touchAt 200 0, touchAt 50 50])))
     = 1 \<and>
   scale (zoomState (snd (handleTouchMove pinchStarted [touchAt 0 0, touchAt 200 0]))) = 2"
  by (simp add: handleTouchStart_def handleTouchMove_def getTouchCenter_def pinchZoom_def
      applyZoomTransform_def clampScale_def isApproximatelyOne_def ZOOM_TOLERANCE_def
      MIN_ZOOM_def MAX_ZOOM_def getTouchDistance_horizontal pinchStarted_fields Let_def
      moduleState_def)

subsection \<open>Invariants of the zoom state\<close>

lemma zoomTriple_resetZoom: "zoomTriple (resetZoom v) = (1, 0, 0)"
  by (simp add: zoomTriple_def resetZoom_def applyZoomTransform_def)

lemma zoomTriple_handleTouchStart: "zoomTriple (snd (handleTouchStart v touches)) = zoomTriple v"
  by (simp add: zoomTriple_def handleTouchStart_def Let_def split: sum.splits)

lemma zoomTriple_navigateToImage: "zoomTriple (snd (navigateToImage cfg images idx v)) = zoomTriple v"
  by (simp add: zoomTriple_def navigateToImage_def Let_def split: option.splits)

lemma zoomTriple_touchState: "zoomTriple (v\<lparr>touchState := ts\<rparr>) = zoomTriple v"
  by (simp add: zoomTriple_def)

lemma zoomTriple_handleTouchEnd:
  "zoomTriple (snd (handleTouchEnd cfg images v changedTouches touches)) = zoomTriple v"
proof -
  have nav: "zoomTriple (snd (navigateToImage cfg images idx (v\<lparr>touchState := ts\<rparr>))) = zoomTriple v"
    for idx ts
    by (simp add: zoomTriple_navigateToImage zoomTriple_touchState)
  show ?thesis
    unfolding handleTouchEnd_def Let_def
    by (auto simp: nav zoomTriple_touchState split: prod.splits option.splits if_splits
        dest!: arg_cong [where f = "\<lambda>r. zoomTriple (snd r)"])
qed

lemma zoomTriple_runFades:
  "zoomTriple (snd (runFades images urls (e, v))) = zoomTriple v \<or>
   zoomTriple (snd (runFades images urls (e, v))) = (1, 0, 0)"
proof (induction urls arbitrary: e v)
  case Nil
  then show ?case by simp
next
  case (Cons url urls)
  have "zoomTriple (snd (handleFade images url v)) = (1, 0, 0)"
    by (simp add: handleFade_def Let_def zoomTriple_resetZoom)
  then show ?case
    using Cons.IH [of "if e = None then fst (handleFade images url v) else e"
        "snd (handleFade images url v)"]
    by (auto simp: split_beta)
qed

lemma zoomTriple_animationEnd:
  "zoomTriple (snd (animationEnd images v)) = zoomTriple v \<or>
   zoomTriple (snd (animationEnd images v)) = (1, 0, 0)"
  using zoomTriple_runFades [of images "fadeListeners v" None "v\<lparr>fadeListeners := []\<rparr>"]
  by (simp add: animationEnd_def zoomTriple_def)

lemma zoomTriple_clickHandler:
  "zoomTriple (snd (clickHandler cfg doc v target)) = zoomTriple v \<or>
   zoomTriple (snd (clickHandler cfg doc v target)) = (1, 0, 0)"
  by (simp add: clickHandler_def Let_def zoomTriple_def resetZoom_def applyZoomTransform_def
      split: option.splits)

lemma zoomTriple_handleKeyboardNav:
  "zoomTriple (snd (handleKeyboardNav cfg images v key)) = zoomTriple v"
  by (simp add: handleKeyboardNav_def zoomTriple_navigateToImage)
     (simp add: closeLightbox_def zoomTriple_def)

text \<open>Every event but a touch move keeps scale and offset, or resets them.\<close>

lemma zoomTriple_dispatch:
  assumes "\<forall>touches. ev \<noteq> TouchMove touches"
  shows "zoomTriple (snd (dispatch cfg doc v ev)) = zoomTriple v \<or>
         zoomTriple (snd (dispatch cfg doc v ev)) = (1, 0, 0)"
proof (cases ev)
  case (Click target)
  then show ?thesis using zoomTriple_clickHandler [of cfg doc v target] by (simp add: dispatch_def)
next
  case (TouchStart touches)
  then show ?thesis by (simp add: dispatch_def zoomTriple_handleTouchStart)
next
  case (TouchMove touches)
  then show ?thesis using assms by simp
next
  case (TouchEnd changedTouches touches)
  then show ?thesis by (simp add: dispatch_def zoomTriple_handleTouchEnd)
next
  case AnimationEnd
  then show ?thesis
    using zoomTriple_animationEnd [of "querySelectorAll (imageSelector cfg) doc" v]
    by (simp add: dispatch_def)
next
  case (KeyDown key)
  then show ?thesis by (simp add: dispatch_def zoomTriple_handleKeyboardNav)
next
  case (ButtonClick direction)
  then show ?thesis by (simp add: dispatch_def navigationHandler_def zoomTriple_navigateToImage)
next
  case CloseClick
  then show ?thesis by (simp add: dispatch_def closeLightbox_def zoomTriple_def)
qed

text \<open>What a touch move does to \<^verbatim>\<open>zoomState\<close>: a pinch, a pan, or nothing.\<close>

lemma handleTouchMove_cases:
  "(length touches = 2 \<and> 0 < initialDistance (touchState v) \<and>
      zoomState (snd (handleTouchMove v touches))
        = zoomState (pinchZoom (getTouchDistance touches)
            \<lparr>center_x = (screenX (touches ! 0) + screenX (touches ! 1)) / 2,
             center_y = (screenY (touches ! 0) + screenY (touches ! 1)) / 2\<rparr> v)) \<or>
   (length touches = 1 \<and> MIN_ZOOM < scale (zoomState v) \<and>
      zoomState (snd (handleTouchMove v touches))
        = (zoomState v)\<lparr>zoom_x := zoom_x (zoomState v)
                             + (screenX (touches ! 0) - lastCenterX (touchState v)) / scale (zoomState v),
                         zoom_y := zoom_y (zoomState v)
                             + (screenY (touches ! 0) - lastCenterY (touchState v)) / scale (zoomState v)\<rparr>) \<or>
   zoomState (snd (handleTouchMove v touches)) = zoomState v"
proof (cases "length touches = 2")
  case True
  then show ?thesis by (simp add: handleTouchMove_two Let_def)
next
  case False
  then show ?thesis by (simp add: handleTouchMove_def applyZoomTransform_def Let_def)
qed

lemma pinchZoom_atRest: "atRestCentered (pinchZoom d c v)"
  by (simp add: atRestCentered_def pinchZoom_def applyZoomTransform_def Let_def)

lemma pinchZoom_unzoomed: "unzoomedCentered (pinchZoom d c v)"
  by (simp add: unzoomedCentered_def pinchZoom_def applyZoomTransform_def Let_def
      isApproximatelyOne_def ZOOM_TOLERANCE_def MIN_ZOOM_def)

lemma pinchZoom_inRange: "scaleInRange (pinchZoom d c v)"
  using clampScale_bounds by (simp add: scaleInRange_def pinchZoom_scale)

lemma scaleInRange_handleTouchMove:
  assumes "scaleInRange v"
  shows "scaleInRange (snd (handleTouchMove v touches))"
proof -
  let ?w = "snd (handleTouchMove v touches)"
  consider (pinch) c d where "zoomState ?w = zoomState (pinchZoom d c v)"
    | (pan) a b where "MIN_ZOOM < scale (zoomState v)"
        "zoomState ?w = (zoomState v)\<lparr>zoom_x := a, zoom_y := b\<rparr>"
    | (same) "zoomState ?w = zoomState v"
    using handleTouchMove_cases [of touches v] by blast
  then show ?thesis
  proof cases
    case pinch
    then show ?thesis
      using pinchZoom_inRange [of d c v] by (simp add: scaleInRange_def)
  next
    case pan
    then show ?thesis using assms by (simp add: scaleInRange_def)
  next
    case same
    then show ?thesis using assms by (simp add: scaleInRange_def)
  qed
qed

lemma unzoomedCentered_handleTouchMove:
  assumes "unzoomedCentered v"
  shows "unzoomedCentered (snd (handleTouchMove v touches))"
proof -
  let ?w = "snd (handleTouchMove v touches)"
  consider (pinch) c d where "zoomState ?w = zoomState (pinchZoom d c v)"
    | (pan) a b where "MIN_ZOOM < scale (zoomState v)"
        "zoomState ?w = (zoomState v)\<lparr>zoom_x := a, zoom_y := b\<rparr>"
    | (same) "zoomState ?w = zoomState v"
    using handleTouchMove_cases [of touches v] by blast
  then show ?thesis
  proof cases
    case pinch
    then show ?thesis
      using pinchZoom_unzoomed [of d c v] by (simp add: unzoomedCentered_def)
  next
    case pan
    then show ?thesis by (simp add: unzoomedCentered_def)
  next
    case same
    then show ?thesis using assms by (simp add: unzoomedCentered_def)
  qed
qed

lemma atRestCentered_handleTouchMove:
  assumes "atRestCentered v"
    and "length touches \<noteq> 1 \<or> scale (zoomState v) \<le> MIN_ZOOM
         \<or> \<not> isApproximatelyOne (scale (zoomState v))"
  shows "atRestCentered (snd (handleTouchMove v touches))"
proof -
  let ?w = "snd (handleTouchMove v touches)"
  consider (pinch) c d where "zoomState ?w = zoomState (pinchZoom d c v)"
    | (pan) a b where "length touches = 1" "MIN_ZOOM < scale (zoomState v)"
        "zoomState ?w = (zoomState v)\<lparr>zoom_x := a, zoom_y := b\<rparr>"
    | (same) "zoomState ?w = zoomState v"
    using handleTouchMove_cases [of touches v] by blast
  then show ?thesis
  proof cases
    case pinch
    then show ?thesis
      using pinchZoom_atRest [of d c v] by (simp add: atRestCentered_def)
  next
    case pan
    with assms(2) have "\<not> isApproximatelyOne (scale (zoomState v))" by simp
    then show ?thesis using pan(3) by (simp add: atRestCentered_def)
  next
    case same
    then show ?thesis using assms(1) by (simp add: atRestCentered_def)
  qed
qed

lemma inv_from_triple:
  assumes "zoomTriple w = zoomTriple v \<or> zoomTriple w = (1, 0, 0)"
  shows "scaleInRange v \<Longrightarrow> scaleInRange w"
    and "unzoomedCentered v \<Longrightarrow> unzoomedCentered w"
    and "atRestCentered v \<Longrightarrow> atRestCentered w"
  using assms
  by (auto simp: zoomTriple_def scaleInRange_def unzoomedCentered_def atRestCentered_def
      MIN_ZOOM_def MAX_ZOOM_def)

lemma scaleInRange_dispatch:
  assumes "scaleInRange v"
  shows "scaleInRange (snd (dispatch cfg doc v ev))"
proof (cases "\<exists>touches. ev = TouchMove touches")
  case True
  then show ?thesis using assms by (auto simp: dispatch_def scaleInRange_handleTouchMove)
next
  case False
  then have "\<forall>touches. ev \<noteq> TouchMove touches" by simp
  from inv_from_triple(1) [OF zoomTriple_dispatch [OF this] assms] show ?thesis .
qed

lemma unzoomedCentered_dispatch:
  assumes "unzoomedCentered v"
  shows "unzoomedCentered (snd (dispatch cfg doc v ev))"
proof (cases "\<exists>touches. ev = TouchMove touches")
  case True
  then show ?thesis using assms by (auto simp: dispatch_def unzoomedCentered_handleTouchMove)
next
  case False
  then have "\<forall>touches. ev \<noteq> TouchMove touches" by simp
  from inv_from_triple(2) [OF zoomTriple_dispatch [OF this] assms] show ?thesis .
qed

lemma atRestCentered_dispatch:
  assumes "atRestCentered v"
    and "(\<forall>t. ev \<noteq> TouchMove [t]) \<or> scale (zoomState v) \<le> MIN_ZOOM
         \<or> \<not> isApproximatelyOne (scale (zoomState v))"
  shows "atRestCentered (snd (dispatch cfg doc v ev))"
proof (cases "\<exists>touches. ev = TouchMove touches")
  case True
  then obtain touches where ev: "ev = TouchMove touches" by blast
  have "length touches \<noteq> 1 \<or> scale (zoomState v) \<le> MIN_ZOOM
         \<or> \<not> isApproximatelyOne (scale (zoomState v))"
  proof (cases "length touches = 1")
    case True
    then obtain t where "touches = [t]" by (cases touches) auto
    with assms(2) ev show ?thesis by simp
  next
    case False
    then show ?thesis by simp
  qed
  from atRestCentered_handleTouchMove [OF assms(1) this] show ?thesis
    using assms(1) by (simp add: ev dispatch_def)
next
  case False
  then have "\<forall>touches. ev \<noteq> TouchMove touches" by simp
  from inv_from_triple(3) [OF zoomTriple_dispatch [OF this] assms(1)] show ?thesis .
qed

lemma scaleInRange_run: "scaleInRange v \<Longrightarrow> scaleInRange (run cfg doc v evs)"
  by (induction evs arbitrary: v) (simp_all add: scaleInRange_dispatch)

lemma unzoomedCentered_run: "unzoomedCentered v \<Longrightarrow> unzoomedCentered (run cfg doc v evs)"
  by (induction evs arbitrary: v) (simp_all add: unzoomedCentered_dispatch)

lemma moduleState_invs: "scaleInRange moduleState" "unzoomedCentered moduleState"
  "atRestCentered moduleState"
  by (simp_all add: scaleInRange_def unzoomedCentered_def atRestCentered_def moduleState_def
      MIN_ZOOM_def MAX_ZOOM_def)

lemma run_append: "run cfg doc v (evs @ evs') = run cfg doc (run cfg doc v evs) evs'"
  by (induction evs arbitrary: v) simp_all

lemma restRun_fields:
  "scale (zoomState (run sampleConfig sampleImages moduleState restRun)) = 201 / 200"
  "zoom_x (zoomState (run sampleConfig sampleImages moduleState restRun)) = 0"
  "zoom_y (zoomState (run sampleConfig sampleImages moduleState restRun)) = 0"
  "lastCenterX (touchState (run sampleConfig sampleImages moduleState restRun)) = 201 / 2"
  "listenersAttached (run sampleConfig sampleImages moduleState restRun)"
  by (simp_all add: restRun_def eval_defs)

text \<open>
  C8. The clamp of line 229 lies in \<open>[MIN_ZOOM, MAX_ZOOM]\<close> for every requested value, a
  reset sets the scale to exactly 1, and after every sequence of events from the loaded
  module the scale is between 1 and 5.
\<close>

theorem scale_bounds_invariant:
  "MIN_ZOOM \<le> clampScale s \<and> clampScale s \<le> MAX_ZOOM \<and>
   scale (zoomState (resetZoom v)) = 1 \<and>
   1 \<le> scale (zoomState (run cfg doc moduleState evs)) \<and>
   scale (zoomState (run cfg doc moduleState evs)) \<le> 5"
proof -
  have "scaleInRange (run cfg doc moduleState evs)"
    using moduleState_invs(1) by (rule scaleInRange_run)
  then show ?thesis
    using clampScale_bounds [of s]
    by (simp add: scaleInRange_def MIN_ZOOM_def MAX_ZOOM_def resetZoom_def applyZoomTransform_def)
qed

theorem scale_bounds_invariant_witness:
  "clampScale 7 = 5 \<and> clampScale (1 / 2) = 1 \<and>
   scale (zoomState (run sampleConfig sampleImages moduleState pinchRun)) = 5 \<and>
   1 \<le> scale (zoomState (run sampleConfig sampleImages moduleState pinchRun)) \<and>
   scale (zoomState (run sampleConfig sampleImages moduleState pinchRun)) \<le> 5"
proof -
  have "scale (zoomState (run sampleConfig sampleImages moduleState pinchRun)) = 5"
    by (simp add: pinchRun_def eval_defs)
  then show ?thesis
    using scale_bounds_invariant [of 7 moduleState sampleConfig sampleImages pinchRun]
    by (simp add: clampScale_def MIN_ZOOM_def MAX_ZOOM_def)
qed

text \<open>
  C1 (amended). "Offset (0, 0) whenever the scale is within tolerance of 1" holds after a
  reset and after every two-contact move that writes the scale, and every event preserves
  it unless it is a one-contact move made while the scale is above \<open>MIN_ZOOM\<close> and within
  the tolerance. In every state reached from the loaded module, a scale of exactly
  \<open>MIN_ZOOM\<close> has offset (0, 0). The counterexample to the claim as written: a pinch from
  200 to 201 pixels leaves the scale at 1.005 with offset 0, and the one-finger move that
  follows pans, since its guard is \<open>scale > MIN_ZOOM\<close>.
\<close>

theorem rest_centering:
  "atRestCentered (resetZoom v) \<and>
   (length touches = 2 \<and> 0 < initialDistance (touchState v) \<longrightarrow>
      atRestCentered (snd (handleTouchMove v touches))) \<and>
   (atRestCentered v \<and>
      ((\<forall>t. ev \<noteq> TouchMove [t]) \<or> scale (zoomState v) \<le> MIN_ZOOM
        \<or> \<not> isApproximatelyOne (scale (zoomState v))) \<longrightarrow>
      atRestCentered (snd (dispatch cfg doc v ev))) \<and>
   unzoomedCentered (run cfg doc moduleState evs)"
proof (intro conjI impI)
  show "atRestCentered (resetZoom v)"
    by (simp add: atRestCentered_def resetZoom_def applyZoomTransform_def)
  show "unzoomedCentered (run cfg doc moduleState evs)"
    using moduleState_invs(2) by (rule unzoomedCentered_run)
next
  assume "length touches = 2 \<and> 0 < initialDistance (touchState v)"
  then show "atRestCentered (snd (handleTouchMove v touches))"
    using pinchZoom_atRest
    by (simp add: handleTouchMove_two Let_def atRestCentered_def)
next
  assume "atRestCentered v \<and>
      ((\<forall>t. ev \<noteq> TouchMove [t]) \<or> scale (zoomState v) \<le> MIN_ZOOM
        \<or> \<not> isApproximatelyOne (scale (zoomState v)))"
  then show "atRestCentered (snd (dispatch cfg doc v ev))"
    using atRestCentered_dispatch by blast
qed

theorem rest_centering_witness:
  "length [touchAt 0 0, touchAt 201 0] = 2 \<and>
   0 < initialDistance (touchState (snd (handleTouchStart moduleState [touchAt 0 0, touchAt 200 0]))) \<and>
   atRestCentered (snd (handleTouchMove (snd (handleTouchStart moduleState [touchAt 0 0, touchAt 200 0]))
                          [touchAt 0 0, touchAt 201 0])) \<and>
   atRestCentered moduleState \<and>
   atRestCentered (snd (dispatch sampleConfig sampleImages moduleState (Click (sampleImage 0)))) \<and>
   unzoomedCentered (run sampleConfig sampleImages moduleState restRun)"
proof -
  let ?v = "snd (handleTouchStart moduleState [touchAt 0 0, touchAt 200 0])"
  have d: "0 < initialDistance (touchState ?v)"
    by (simp add: handleTouchStart_two getTouchDistance_horizontal)
  have e: "\<forall>t. Click (sampleImage 0) \<noteq> TouchMove [t]" by simp
  show ?thesis
    using d e moduleState_invs(3)
      rest_centering [of ?v "[touchAt 0 0, touchAt 201 0]" "Click (sampleImage 0)"
        sampleConfig sampleImages restRun]
      rest_centering [of moduleState "[]" "Click (sampleImage 0)" sampleConfig sampleImages restRun]
    by simp
qed

theorem pan_near_rest_counterexample:
  "atRestCentered (run sampleConfig sampleImages moduleState restRun) \<and>
   isApproximatelyOne
     (scale (zoomState (run sampleConfig sampleImages moduleState (restRun @ [TouchMove [touchAt 10 0]])))) \<and>
   zoom_x (zoomState (run sampleConfig sampleImages moduleState (restRun @ [TouchMove [touchAt 10 0]])))
     = - (18100 / 201) \<and>
   \<not> atRestCentered (run sampleConfig sampleImages moduleState (restRun @ [TouchMove [touchAt 10 0]]))"
  by (simp add: run_append atRestCentered_def restRun_fields dispatch_def handleTouchMove_def
      applyZoomTransform_def isApproximatelyOne_def ZOOM_TOLERANCE_def MIN_ZOOM_def Let_def)

end
